theory Spec2Isabelle
  imports Complex_Main
begin

section \<open>Strings\<close>

text \<open>
  Python strings are modelled as \<^typ>\<open>string\<close>: one \<^typ>\<open>char\<close> per code point, so the
  model covers text whose code points lie below 256. The character classes below are
  those of Python 3 on that range: \<open>str.strip\<close> and the pattern \<open>\s\<close> use the same
  whitespace test, \<open>\d\<close> the decimal digits, and case-insensitive matching of an ASCII
  letter accepts exactly its two cases.
\<close>

definition newline :: char where
  "newline = CHR 0x0A"

definition isspace :: "char \<Rightarrow> bool" where
  "isspace c = (c \<in> set [CHR 0x09, CHR 0x0A, CHR 0x0B, CHR 0x0C, CHR 0x0D, CHR 0x1C,
       CHR 0x1D, CHR 0x1E, CHR 0x1F, CHR 0x20, CHR 0x85, CHR 0xA0])"

definition isdecimal :: "char \<Rightarrow> bool" where
  "isdecimal c = (c \<in> set ''0123456789'')"

definition lower :: "char \<Rightarrow> char" where
  "lower c = (case map_of (zip ''ABCDEFGHIJKLMNOPQRSTUVWXYZ'' ''abcdefghijklmnopqrstuvwxyz'') c of
       Some l \<Rightarrow> l
     | None \<Rightarrow> c)"

text \<open>\<open>s.strip()\<close>\<close>

definition strip :: "string \<Rightarrow> string" where
  "strip s = rev (dropWhile isspace (rev (dropWhile isspace s)))"

text \<open>\<open>s.startswith(p)\<close>\<close>

fun startswith :: "string \<Rightarrow> string \<Rightarrow> bool" where
  "startswith s [] = True"
| "startswith [] (p # ps) = False"
| "startswith (c # cs) (p # ps) = (c = p \<and> startswith cs ps)"

text \<open>The same test under \<open>re.IGNORECASE\<close>, for a pattern of lower-case ASCII letters.\<close>

fun startswith_ci :: "string \<Rightarrow> string \<Rightarrow> bool" where
  "startswith_ci s [] = True"
| "startswith_ci [] (p # ps) = False"
| "startswith_ci (c # cs) (p # ps) = (lower c = p \<and> startswith_ci cs ps)"

text \<open>\<open>f in s\<close> on strings: \<open>f\<close> occurs in \<open>s\<close> as a contiguous substring.\<close>

fun contains :: "string \<Rightarrow> string \<Rightarrow> bool" where
  "contains [] f = (f = [])"
| "contains (c # cs) f = (startswith (c # cs) f \<or> contains cs f)"

text \<open>\<open>s.split('\n')\<close>: never empty, one more element than there are newlines.\<close>

fun split_lines :: "string \<Rightarrow> string list" where
  "split_lines [] = [[]]"
| "split_lines (c # cs) =
     (if c = newline then [] # split_lines cs
      else (case split_lines cs of
              [] \<Rightarrow> [[c]]
            | l # ls \<Rightarrow> (c # l) # ls))"

text \<open>\<open>xs[j]\<close> for a non-negative index: out of range raises.\<close>

datatype py_error =
    IndexError
  | AttributeError
  | OSError string
  | ExternalError string

definition getitem :: "'a list \<Rightarrow> nat \<Rightarrow> py_error + 'a" where
  "getitem xs j = (if j < length xs then Inr (xs ! j) else Inl IndexError)"

section \<open>The patterns of the caption heuristic\<close>

subsection \<open>The image reference\<close>

text \<open>
  \<open>pattern = rf'!\[(.*?)\]\([^)]*{re.escape(image_filename)}[^)]*\)'\<close>, as the
  backtracking matcher of \<open>re\<close> runs it. \<open>re.escape\<close> makes the file name \<open>f\<close> a literal.

  \<open>[^)]*\)\<close> at the start of \<open>u\<close>: the greedy class stops at the first closing
  parenthesis, which must be there. The result is the number of characters matched.
\<close>

definition rest_to_paren :: "string \<Rightarrow> nat option" where
  "rest_to_paren u =
     (let n = length (takeWhile (\<lambda>c. c \<noteq> CHR 0x29) u)
      in if n < length u then Some (Suc n) else None)"

text \<open>
  \<open>[^)]*f[^)]*\)\<close> at the start of \<open>t\<close>, the first class having taken \<open>i\<close>
  characters: the literal and the rest are tried there, then with the class giving back
  one character at a time.
\<close>

fun path_try :: "string \<Rightarrow> string \<Rightarrow> nat \<Rightarrow> nat option" where
  "path_try f t i =
     (case (if startswith (drop i t) f then rest_to_paren (drop (i + length f) t) else None) of
        Some n \<Rightarrow> Some (i + length f + n)
      | None \<Rightarrow> (case i of 0 \<Rightarrow> None | Suc j \<Rightarrow> path_try f t j))"

definition path_match :: "string \<Rightarrow> string \<Rightarrow> nat option" where
  "path_match f t = path_try f t (length (takeWhile (\<lambda>c. c \<noteq> CHR 0x29) t))"

text \<open>\<open>\]\([^)]*f[^)]*\)\<close> at the start of \<open>s\<close>.\<close>

definition ref_tail :: "string \<Rightarrow> string \<Rightarrow> nat option" where
  "ref_tail f s =
     (case s of
        a # b # t \<Rightarrow>
          if a = CHR 0x5D \<and> b = CHR 0x28 then map_option (\<lambda>n. n + 2) (path_match f t) else None
      | _ \<Rightarrow> None)"

text \<open>
  \<open>(.*?)\<close> followed by the tail: the lazy group takes no character if the tail matches
  at once, and otherwise one more character that is not a newline. The result is the
  group's text and the number of characters matched.
\<close>

fun lazy_group :: "string \<Rightarrow> string \<Rightarrow> (string \<times> nat) option" where
  "lazy_group f [] = map_option (\<lambda>n. ([], n)) (ref_tail f [])"
| "lazy_group f (c # cs) =
     (case ref_tail f (c # cs) of
        Some n \<Rightarrow> Some ([], n)
      | None \<Rightarrow>
          if c = newline then None
          else map_option (\<lambda>(g, n). (c # g, Suc n)) (lazy_group f cs))"

text \<open>The whole pattern at the start of \<open>s\<close>.\<close>

definition match_ref :: "string \<Rightarrow> string \<Rightarrow> (string \<times> nat) option" where
  "match_ref f s =
     (case s of
        a # b # t \<Rightarrow>
          if a = CHR 0x21 \<and> b = CHR 0x5B then map_option (\<lambda>(g, n). (g, n + 2)) (lazy_group f t)
          else None
      | _ \<Rightarrow> None)"

lemma match_ref_consumes:
  assumes "match_ref f s = Some (g, n)"
  shows "0 < n \<and> s \<noteq> []"
  using assms by (auto simp: match_ref_def split: list.splits if_splits)

text \<open>
  \<open>re.findall(pattern, s)\<close>: the group of every match, left to right, each search
  resuming where the last match ended.
\<close>

function findall :: "string \<Rightarrow> string \<Rightarrow> string list" where
  "findall f s =
     (case match_ref f s of
        Some (g, n) \<Rightarrow> g # findall f (drop n s)
      | None \<Rightarrow> (case s of [] \<Rightarrow> [] | c # cs \<Rightarrow> findall f cs))"
  by pat_completeness auto
termination
proof (relation "measure (\<lambda>(f, s). length s)")
  show "wf (measure (\<lambda>(f, s). length s))" by simp
next
  fix f s x2 g n
  assume "match_ref f s = Some x2" and "(g, n) = x2"
  then have "match_ref f s = Some (g, n)" by simp
  from match_ref_consumes [OF this]
  show "((f, drop n s), (f, s)) \<in> measure (\<lambda>(f, s). length s)" by (cases s) auto
next
  fix f s c cs
  assume "s = c # cs"
  then show "((f, cs), (f, s)) \<in> measure (\<lambda>(f, s). length s)" by simp
qed

declare findall.simps [simp del]

subsection \<open>The figure label\<close>

text \<open>
  \<open>re.search(r'(?:Figure?|Fig\.?)\s*(\d+)[:\.]?\s*(.*)', line, re.IGNORECASE)\<close>.

  \<open>\s*(\d+)[:\.]?\s*(.*)\<close> at the start of \<open>s\<close>, giving group 2. Whitespace and digits
  are disjoint, so the digits must follow the longest run of whitespace; everything
  after them may match nothing, so each greedy item keeps all it can take.
\<close>

definition label_rest :: "string \<Rightarrow> string option" where
  "label_rest s =
     (let s1 = dropWhile isspace s;
          s2 = dropWhile isdecimal s1
      in if takeWhile isdecimal s1 = [] then None
         else
           let s3 = (case s2 of
                       [] \<Rightarrow> s2
                     | c # cs \<Rightarrow> if c = CHR 0x3A \<or> c = CHR 0x2E then cs else s2)
           in Some (takeWhile (\<lambda>c. c \<noteq> newline) (dropWhile isspace s3)))"

text \<open>A greedy optional character \<open>x?\<close> before a continuation \<open>k\<close>: with it first, then without.\<close>

definition optional_then :: "(char \<Rightarrow> bool) \<Rightarrow> (string \<Rightarrow> 'a option) \<Rightarrow> string \<Rightarrow> 'a option" where
  "optional_then p k s =
     (case (case s of [] \<Rightarrow> None | c # cs \<Rightarrow> if p c then k cs else None) of
        Some r \<Rightarrow> Some r
      | None \<Rightarrow> k s)"

text \<open>The pattern at the start of \<open>s\<close>: the alternative \<open>Figure?\<close> first, then \<open>Fig\.?\<close>.\<close>

definition figure_here :: "string \<Rightarrow> string option" where
  "figure_here s =
     (case (if startswith_ci s ''figur''
            then optional_then (\<lambda>c. lower c = CHR ''e'') label_rest (drop 5 s)
            else None) of
        Some g \<Rightarrow> Some g
      | None \<Rightarrow>
          if startswith_ci s ''fig''
          then optional_then (\<lambda>c. c = CHR 0x2E) label_rest (drop 3 s)
          else None)"

text \<open>\<open>re.search\<close>: the first position where the pattern matches; the result is group 2.\<close>

fun figure_search :: "string \<Rightarrow> string option" where
  "figure_search [] = figure_here []"
| "figure_search (c # cs) =
     (case figure_here (c # cs) of
        Some g \<Rightarrow> Some g
      | None \<Rightarrow> figure_search cs)"

subsection \<open>The tests of the fallback line\<close>

text \<open>\<open>$\<close> without \<open>re.MULTILINE\<close>: at the end, or before a newline that ends the string.\<close>

definition at_end :: "string \<Rightarrow> bool" where
  "at_end r = (r = [] \<or> r = [newline])"

text \<open>\<open>re.match(r'^\d+$', t)\<close> and \<open>re.match(r'^[#*-]+$', t)\<close>, as truth values.\<close>

definition match_all :: "(char \<Rightarrow> bool) \<Rightarrow> string \<Rightarrow> bool" where
  "match_all p t = (takeWhile p t \<noteq> [] \<and> at_end (dropWhile p t))"

definition ispunct :: "char \<Rightarrow> bool" where
  "ispunct c = (c \<in> set ''#*-'')"

section \<open>Logging\<close>

text \<open>
  The logger is a list of records, oldest first. A record keeps the level of the call and
  which message it was, with the values the message interpolates.
\<close>

datatype level = INFO | WARNING | ERROR

datatype message =
    Starting_extraction string
  | Conversion_completed real
  | Extraction_completed
  | Text_length nat
  | Number_of_images nat
  | Extraction_failed py_error
  | Caption_failed py_error
  | Content_saved string
  | File_size
  | Cleaning_up string
  | Cleanup_failed py_error

type_synonym log_record = "level \<times> message"

section \<open>The caption heuristic\<close>

text \<open>
  A loop of \<open>_extract_image_caption\<close> that returns from inside has three outcomes:
  \<open>Inl e\<close> when it raised \<open>e\<close>, \<open>Inr (Some c)\<close> when it returned \<open>c\<close>, and
  \<open>Inr None\<close> when it ran to its end.

  The two loops over \<open>figure_match\<close>, with \<open>js\<close> the values of \<open>range(...)\<close>:
\<close>

fun scan_figure :: "string list \<Rightarrow> nat list \<Rightarrow> py_error + string option" where
  "scan_figure lines [] = Inr None"
| "scan_figure lines (j # js) =
     (case getitem lines j of
        Inl e \<Rightarrow> Inl e
      | Inr l \<Rightarrow>
          (case figure_search l of
             None \<Rightarrow> scan_figure lines js
           | Some g \<Rightarrow>
               if strip g \<noteq> [] then Inr (Some (strip g)) else scan_figure lines js))"

text \<open>The loop over the lines that follow, looking for a line of prose:\<close>

definition prose_ok :: "string \<Rightarrow> bool" where
  "prose_ok line_text =
     (line_text \<noteq> [] \<and>
      \<not> startswith line_text ''!'' \<and>
      \<not> match_all isdecimal line_text \<and>
      \<not> match_all ispunct line_text \<and>
      length line_text > 10)"

fun scan_prose :: "string list \<Rightarrow> nat list \<Rightarrow> py_error + string option" where
  "scan_prose lines [] = Inr None"
| "scan_prose lines (j # js) =
     (case getitem lines j of
        Inl e \<Rightarrow> Inl e
      | Inr l \<Rightarrow>
          if prose_ok (strip l) then Inr (Some (strip l)) else scan_prose lines js)"

text \<open>
  The body of \<open>if image_filename in line\<close> at index \<open>i\<close>. On natural numbers \<open>i - 3\<close>
  stops at 0, as \<open>max(0, i-3)\<close> does.
\<close>

definition at_line :: "string list \<Rightarrow> nat \<Rightarrow> py_error + string option" where
  "at_line lines i =
     (case scan_figure lines [i + 1 ..< min (length lines) (i + 6)] of
        Inl e \<Rightarrow> Inl e
      | Inr (Some c) \<Rightarrow> Inr (Some c)
      | Inr None \<Rightarrow>
          (case scan_figure lines [i - 3 ..< i] of
             Inl e \<Rightarrow> Inl e
           | Inr (Some c) \<Rightarrow> Inr (Some c)
           | Inr None \<Rightarrow> scan_prose lines [i + 1 ..< min (length lines) (i + 4)]))"

text \<open>\<open>for i, line in enumerate(lines)\<close>\<close>

definition enumerate_lines :: "string list \<Rightarrow> (nat \<times> string) list" where
  "enumerate_lines lines = zip [0 ..< length lines] lines"

fun scan_lines :: "string \<Rightarrow> string list \<Rightarrow> (nat \<times> string) list \<Rightarrow> py_error + string option" where
  "scan_lines f lines [] = Inr None"
| "scan_lines f lines ((i, line) # rest) =
     (if contains line f then
        (case at_line lines i of
           Inl e \<Rightarrow> Inl e
         | Inr (Some c) \<Rightarrow> Inr (Some c)
         | Inr None \<Rightarrow> scan_lines f lines rest)
      else scan_lines f lines rest)"

text \<open>The first rule: \<open>matches[0].strip()\<close> when there is a match and it is not empty.\<close>

definition direct_reference :: "string \<Rightarrow> string \<Rightarrow> string option" where
  "direct_reference markdown_text image_filename =
     (case findall image_filename markdown_text of
        [] \<Rightarrow> None
      | m # _ \<Rightarrow> if strip m \<noteq> [] then Some (strip m) else None)"

text \<open>The body of the \<open>try\<close>.\<close>

definition caption_body :: "string \<Rightarrow> string \<Rightarrow> py_error + string" where
  "caption_body markdown_text image_filename =
     (case direct_reference markdown_text image_filename of
        Some caption \<Rightarrow> Inr caption
      | None \<Rightarrow>
          (let lines = split_lines markdown_text
           in case scan_lines image_filename lines (enumerate_lines lines) of
                Inl e \<Rightarrow> Inl e
              | Inr (Some c) \<Rightarrow> Inr c
              | Inr None \<Rightarrow> Inr []))"

text \<open>
  The \<open>try\<close> around the body: a caption goes through, and the \<open>except\<close> branch
  turns any exception into a warning in the log and the empty string.
\<close>

definition or_empty :: "py_error + string \<Rightarrow> string \<times> log_record list" where
  "or_empty r =
     (case r of
        Inr c \<Rightarrow> (c, [])
      | Inl e \<Rightarrow> ([], [(WARNING, Caption_failed e)]))"

text \<open>\<open>_extract_image_caption\<close>: the caption, and what the call logged.\<close>

definition extract_image_caption :: "string \<Rightarrow> string \<Rightarrow> string \<times> log_record list" where
  "extract_image_caption markdown_text image_filename =
     or_empty (caption_body markdown_text image_filename)"

section \<open>Paths and the file system\<close>

text \<open>\<open>os.path.join\<close> (POSIX): one step, then the call with its further arguments.\<close>

definition path_join :: "string \<Rightarrow> string \<Rightarrow> string" where
  "path_join a b =
     (if startswith b ''/'' then b
      else if a = [] \<or> last a = CHR ''/'' then a @ b
      else a @ ''/'' @ b)"

definition os_path_join :: "string \<Rightarrow> string list \<Rightarrow> string" where
  "os_path_join a ps = foldl path_join a ps"

text \<open>
  What the program stores: images, written as JPEG, and one JSON document. The document
  is kept as the tree \<open>json.dump\<close> is given; its text form is not modelled. A float is
  the real number it denotes.
\<close>

datatype image = Pixels string

datatype json =
    JString string
  | JNumber real
  | JArray "json list"
  | JObject "(string \<times> json) list"

datatype file_data = Jpeg image | Json json

datatype node = Dir | File file_data

text \<open>
  The file system maps a path to what is there. Paths are compared as they are written.
\<close>

type_synonym filesystem = "string \<Rightarrow> node option"

text \<open>
  The calls that change the file system. Whether the operating system refuses one
  (permissions, a full disk) is not the program's to decide; \<open>os_error\<close> of the
  environment says so.
\<close>

datatype os_call = Makedirs | Save_image | Open_write | Rmtree

datatype rendered = Rendered nat

record env =
  now_strftime :: string
  now_isoformat :: string
  time_before :: real
  time_after :: real
  float_sub :: "real \<Rightarrow> real \<Rightarrow> real"
  create_converter :: "py_error option"
  run_converter :: "string \<Rightarrow> py_error + rendered"
  text_from_rendered :: "rendered \<Rightarrow> py_error + string \<times> (string \<times> image) list"
  os_error :: "os_call \<Rightarrow> string \<Rightarrow> py_error option"

text \<open>
  The fields of \<open>env\<close> stand for what the program asks of its surroundings:
  \<^item> \<open>now_strftime\<close>: \<open>datetime.now().strftime("%Y%m%d_%H%M%S")\<close> at construction;
  \<^item> \<open>now_isoformat\<close>: \<open>datetime.now().isoformat()\<close> when the record is built;
  \<^item> \<open>time_before\<close>, \<open>time_after\<close>: the two readings of \<open>time.time()\<close>, and
    \<open>float_sub\<close> the subtraction of floats;
  \<^item> \<open>create_converter\<close>: \<open>PdfConverter(artifact_dict=create_model_dict())\<close>, which
    may raise;
  \<^item> \<open>run_converter\<close>: \<open>converter(self.pdf_path)\<close>;
  \<^item> \<open>text_from_rendered\<close>: the markdown text and the images, a dictionary in the
    order of its items.
\<close>

definition is_file :: "filesystem \<Rightarrow> string \<Rightarrow> bool" where
  "is_file fs p = (case fs p of Some (File d) \<Rightarrow> True | _ \<Rightarrow> False)"

text \<open>The directories above \<open>p\<close>: what stands before each separator of \<open>p\<close>.\<close>

definition ancestors :: "string \<Rightarrow> string list" where
  "ancestors p = map (\<lambda>k. take k p) (filter (\<lambda>k. p ! k = CHR ''/'') [1 ..< length p])"

text \<open>\<open>os.makedirs(p, exist_ok=True)\<close>\<close>

definition makedirs :: "env \<Rightarrow> string \<Rightarrow> filesystem \<Rightarrow> py_error + filesystem" where
  "makedirs e p fs =
     (case os_error e Makedirs p of
        Some err \<Rightarrow> Inl err
      | None \<Rightarrow>
          if list_ex (is_file fs) (ancestors p @ [p]) then Inl (OSError ''FileExistsError'')
          else Inr (fold (\<lambda>q f. f(q \<mapsto> Dir)) (ancestors p @ [p]) fs))"

text \<open>Writing a file at \<open>p\<close>: \<open>image.save(p, "JPEG")\<close>, and \<open>open(p, 'w')\<close> with \<open>json.dump\<close>.\<close>

definition write_file :: "env \<Rightarrow> os_call \<Rightarrow> string \<Rightarrow> file_data \<Rightarrow> filesystem \<Rightarrow> py_error + filesystem" where
  "write_file e call p d fs =
     (case os_error e call p of
        Some err \<Rightarrow> Inl err
      | None \<Rightarrow>
          if fs p = Some Dir then Inl (OSError ''IsADirectoryError'')
          else Inr (fs(p \<mapsto> File d)))"

text \<open>
  \<open>shutil.rmtree(d)\<close>: the directory and all that is under it. A removal that fails is
  taken to leave the tree as it was.
\<close>

definition under :: "string \<Rightarrow> string \<Rightarrow> bool" where
  "under d p = (p = d \<or> startswith p (d @ ''/''))"

definition rmtree :: "env \<Rightarrow> string \<Rightarrow> filesystem \<Rightarrow> py_error + filesystem" where
  "rmtree e d fs =
     (case os_error e Rmtree d of
        Some err \<Rightarrow> Inl err
      | None \<Rightarrow>
          if fs d = Some Dir then Inr (\<lambda>p. if under d p then None else fs p)
          else Inl (OSError ''NotADirectoryError''))"

section \<open>The extractor\<close>

text \<open>
  What the program changes: the file system, the logger, and the attributes of
  \<open>surya.settings\<close>.
\<close>

record world =
  fs :: filesystem
  logged :: "log_record list"
  settings :: "string \<Rightarrow> string option"

definition log_to :: "world \<Rightarrow> log_record list \<Rightarrow> world" where
  "log_to w rs = w\<lparr>logged := logged w @ rs\<rparr>"

record LightweightExtractor =
  self_pdf_path :: string
  self_output_dir :: string
  self_session_id :: string
  self_img_dir :: string

subsection \<open>\<open>_setup_marker_models\<close>\<close>

text \<open>\<open>value.replace("s3://", "/")\<close>\<close>

fun replace_s3 :: "string \<Rightarrow> string" where
  "replace_s3 [] = []"
| "replace_s3 (c # cs) =
     (if startswith (c # cs) ''s3://'' then CHR ''/'' # replace_s3 (drop 4 cs)
      else c # replace_s3 cs)"

definition checkpoints :: "string list" where
  "checkpoints =
     [''LAYOUT_MODEL_CHECKPOINT'', ''DETECTOR_MODEL_CHECKPOINT'', ''OCR_ERROR_MODEL_CHECKPOINT'',
      ''TABLE_REC_MODEL_CHECKPOINT'', ''RECOGNITION_MODEL_CHECKPOINT'']"

fun setup_checkpoints :: "string list \<Rightarrow> (string \<Rightarrow> string option) \<Rightarrow> py_error + (string \<Rightarrow> string option)" where
  "setup_checkpoints [] st = Inr st"
| "setup_checkpoints (checkpoint # rest) st =
     (case st checkpoint of
        None \<Rightarrow> Inl AttributeError
      | Some v \<Rightarrow>
          if contains v ''s3://''
          then setup_checkpoints rest (st(checkpoint \<mapsto> ''models'' @ replace_s3 v))
          else setup_checkpoints rest st)"

definition setup_marker_models :: "(string \<Rightarrow> string option) \<Rightarrow> py_error + (string \<Rightarrow> string option)" where
  "setup_marker_models st = setup_checkpoints checkpoints (st(''MODEL_CACHE_DIR'' \<mapsto> ''models''))"

subsection \<open>\<open>__init__\<close>\<close>

text \<open>A function that can raise gives \<open>Inl\<close> of the exception, or its result and the world.\<close>

definition init :: "env \<Rightarrow> string \<Rightarrow> string \<Rightarrow> world \<Rightarrow> py_error + LightweightExtractor \<times> world" where
  "init e pdf_path output_dir w =
     (let self = \<lparr>self_pdf_path = pdf_path,
                  self_output_dir = output_dir,
                  self_session_id = now_strftime e,
                  self_img_dir = os_path_join ''output'' [''images'', now_strftime e]\<rparr>
      in case makedirs e (self_output_dir self) (fs w) of
           Inl err \<Rightarrow> Inl err
         | Inr fs1 \<Rightarrow>
             (case makedirs e (self_img_dir self) fs1 of
                Inl err \<Rightarrow> Inl err
              | Inr fs2 \<Rightarrow>
                  (case setup_marker_models (settings w) of
                     Inl err \<Rightarrow> Inl err
                   | Inr st \<Rightarrow> Inr (self, w\<lparr>fs := fs2, settings := st\<rparr>))))"

subsection \<open>\<open>extract_content\<close>\<close>

text \<open>\<open>str(n)\<close> for a natural number: its decimal digits.\<close>

fun str_nat :: "nat \<Rightarrow> string" where
  "str_nat n =
     (if n < 10 then [''0123456789'' ! n]
      else str_nat (n div 10) @ [''0123456789'' ! (n mod 10)])"

declare str_nat.simps [simp del]

text \<open>
  The two dictionaries the method builds, as records: the keys are fixed. The key
  \<open>"id"\<close> is the field \<open>image_id\<close>.
\<close>

record image_info =
  image_id :: string
  filename :: string
  path :: string
  caption :: string

record content =
  full_text :: string
  images :: "image_info list"
  pdf_path :: string
  extraction_time :: string
  conversion_time_seconds :: real
  session_id :: string

text \<open>\<open>enumerate(images.items())\<close>\<close>

definition enumerate_items :: "(string \<times> image) list \<Rightarrow> (nat \<times> string \<times> image) list" where
  "enumerate_items items = zip [0 ..< length items] items"

text \<open>
  The loop over the images. It ends with the list, or with the exception that
  \<open>image.save\<close> raised; the files written before stay.
\<close>

fun image_loop ::
  "env \<Rightarrow> string \<Rightarrow> string \<Rightarrow> (nat \<times> string \<times> image) list \<Rightarrow> image_info list \<Rightarrow> world
     \<Rightarrow> (py_error + image_info list) \<times> world" where
  "image_loop e dir markdown_text [] image_list w = (Inr image_list, w)"
| "image_loop e dir markdown_text ((i, name, img) # rest) image_list w =
     (let image_filepath = os_path_join dir [name]
      in case write_file e Save_image image_filepath (Jpeg img) (fs w) of
           Inl err \<Rightarrow> (Inl err, w)
         | Inr fs' \<Rightarrow>
             (case extract_image_caption markdown_text name of
                (cap, warnings) \<Rightarrow>
                  image_loop e dir markdown_text rest
                    (image_list @
                       [\<lparr>image_id = ''fig'' @ str_nat (i + 1),
                         filename = name,
                         path = image_filepath,
                         caption = cap\<rparr>])
                    (log_to (w\<lparr>fs := fs'\<rparr>) warnings)))"

text \<open>
  The \<open>except\<close> branch: the error is logged and the method returns \<open>None\<close>. (The
  traceback goes to the standard error stream, which is not part of the world.)
\<close>

definition extraction_failed :: "py_error \<Rightarrow> world \<Rightarrow> content option \<times> world" where
  "extraction_failed err w = (None, log_to w [(ERROR, Extraction_failed err)])"

definition extract_content :: "env \<Rightarrow> LightweightExtractor \<Rightarrow> world \<Rightarrow> content option \<times> world" where
  "extract_content e self w =
     (let w0 = log_to w [(INFO, Starting_extraction (self_pdf_path self))]
      in case create_converter e of
           Some err \<Rightarrow> extraction_failed err w0
         | None \<Rightarrow>
             (case run_converter e (self_pdf_path self) of
                Inl err \<Rightarrow> extraction_failed err w0
              | Inr r \<Rightarrow>
                  (let conversion_time = float_sub e (time_after e) (time_before e);
                       w1 = log_to w0 [(INFO, Conversion_completed conversion_time)]
                   in case text_from_rendered e r of
                        Inl err \<Rightarrow> extraction_failed err w1
                      | Inr (markdown_text, items) \<Rightarrow>
                          (case image_loop e (self_img_dir self) markdown_text
                                  (enumerate_items items) [] w1 of
                             (Inl err, w2) \<Rightarrow> extraction_failed err w2
                           | (Inr image_list, w2) \<Rightarrow>
                               (Some \<lparr>full_text = markdown_text,
                                      images = image_list,
                                      pdf_path = self_pdf_path self,
                                      extraction_time = now_isoformat e,
                                      conversion_time_seconds = conversion_time,
                                      session_id = self_session_id self\<rparr>,
                                log_to w2
                                  [(INFO, Extraction_completed),
                                   (INFO, Text_length (length markdown_text)),
                                   (INFO, Number_of_images (length image_list))])))))"

subsection \<open>\<open>save_content\<close>\<close>

text \<open>What \<open>json.dump\<close> writes for the record: an object with the keys of the dictionary.\<close>

definition json_of_image :: "image_info \<Rightarrow> json" where
  "json_of_image i =
     JObject [(''id'', JString (image_id i)),
              (''filename'', JString (filename i)),
              (''path'', JString (path i)),
              (''caption'', JString (caption i))]"

definition json_of_content :: "content \<Rightarrow> json" where
  "json_of_content c =
     JObject [(''full_text'', JString (full_text c)),
              (''images'', JArray (map json_of_image (images c))),
              (''pdf_path'', JString (pdf_path c)),
              (''extraction_time'', JString (extraction_time c)),
              (''conversion_time_seconds'', JNumber (conversion_time_seconds c)),
              (''session_id'', JString (session_id c))]"

definition save_content ::
  "env \<Rightarrow> LightweightExtractor \<Rightarrow> content \<Rightarrow> string option \<Rightarrow> world \<Rightarrow> py_error + string \<times> world" where
  "save_content e self c output_file w =
     (let out = (case output_file of
                   None \<Rightarrow> os_path_join (self_output_dir self) [''lightweight_content.json'']
                 | Some p \<Rightarrow> p)
      in case write_file e Open_write out (Json (json_of_content c)) (fs w) of
           Inl err \<Rightarrow> Inl err
         | Inr fs' \<Rightarrow>
             Inr (out, log_to (w\<lparr>fs := fs'\<rparr>) [(INFO, Content_saved out), (INFO, File_size)]))"

subsection \<open>\<open>cleanup_temp_files\<close>\<close>

text \<open>
  The method has one outcome, a world: the only call that can raise is \<open>rmtree\<close>,
  inside the \<open>try\<close>, and the \<open>except\<close> branch turns its exception into a warning.
\<close>

definition cleanup_temp_files :: "env \<Rightarrow> LightweightExtractor \<Rightarrow> world \<Rightarrow> world" where
  "cleanup_temp_files e self w =
     (if fs w (self_img_dir self) \<noteq> None then
        (let w1 = log_to w [(INFO, Cleaning_up (self_img_dir self))]
         in case rmtree e (self_img_dir self) (fs w1) of
              Inl err \<Rightarrow> log_to w1 [(WARNING, Cleanup_failed err)]
            | Inr fs' \<Rightarrow> w1\<lparr>fs := fs'\<rparr>)
      else w)"

subsection \<open>\<open>extract_lightweight_content\<close>\<close>

text \<open>\<open>if content:\<close> holds of every dictionary the method returns: it has six keys.\<close>

definition extract_lightweight_content ::
  "env \<Rightarrow> string \<Rightarrow> string \<Rightarrow> bool \<Rightarrow> world
     \<Rightarrow> py_error + (content option \<times> string option) \<times> world" where
  "extract_lightweight_content e pdf output_dir cleanup_temp w =
     (case init e pdf output_dir w of
        Inl err \<Rightarrow> Inl err
      | Inr (extractor, w1) \<Rightarrow>
          (case extract_content e extractor w1 of
             (Some c, w2) \<Rightarrow>
               (case save_content e extractor c None w2 of
                  Inl err \<Rightarrow> Inl err
                | Inr (output_file, w3) \<Rightarrow>
                    Inr ((Some c, Some output_file),
                         if cleanup_temp then cleanup_temp_files e extractor w3 else w3))
           | (None, w2) \<Rightarrow> Inr ((None, None), w2)))"

section \<open>The heuristic in the words of the specification\<close>

text \<open>The first result that a search gives along a list.\<close>

fun first_some :: "('a \<Rightarrow> 'b option) \<Rightarrow> 'a list \<Rightarrow> 'b option" where
  "first_some f [] = None"
| "first_some f (x # xs) = (case f x of Some y \<Rightarrow> Some y | None \<Rightarrow> first_some f xs)"

text \<open>
  The caption a line gives as a figure label: the text after the label, trimmed, when
  the line has a label and that text is not empty.
\<close>

definition label_caption :: "string \<Rightarrow> string option" where
  "label_caption l =
     (case figure_search l of
        None \<Rightarrow> None
      | Some g \<Rightarrow> if strip g = [] then None else Some (strip g))"

text \<open>
  A trimmed line that can stand as a caption: not empty, not starting with \<open>!\<close>, not
  purely numeric, not made of \<open>#\<close>, \<open>*\<close> and \<open>-\<close> only, and longer than 10
  characters.
\<close>

definition descriptive :: "string \<Rightarrow> bool" where
  "descriptive s =
     (s \<noteq> [] \<and> hd s \<noteq> CHR ''!'' \<and> \<not> list_all isdecimal s \<and> \<not> list_all ispunct s
      \<and> 10 < length s)"

text \<open>The caption a line gives as prose: the line, trimmed, when it is descriptive.\<close>

definition prose_caption :: "string \<Rightarrow> string option" where
  "prose_caption l = (if descriptive (strip l) then Some (strip l) else None)"

text \<open>The lines at offsets \<open>+1..+n\<close> from line \<open>i\<close>, and at offsets \<open>-n..-1\<close>, as far as they exist.\<close>

definition lines_below :: "string list \<Rightarrow> nat \<Rightarrow> nat \<Rightarrow> string list" where
  "lines_below lines i n = take n (drop (i + 1) lines)"

definition lines_above :: "string list \<Rightarrow> nat \<Rightarrow> nat \<Rightarrow> string list" where
  "lines_above lines i n = drop (i - n) (take i lines)"

text \<open>
  Rules 2 and 3 at line \<open>i\<close>: a figure label in the five lines below, else in the
  three lines above, else a line of prose in the three lines below.
\<close>

definition caption_at :: "string list \<Rightarrow> nat \<Rightarrow> string option" where
  "caption_at lines i =
     (case first_some label_caption (lines_below lines i 5) of
        Some c \<Rightarrow> Some c
      | None \<Rightarrow>
          (case first_some label_caption (lines_above lines i 3) of
             Some c \<Rightarrow> Some c
           | None \<Rightarrow> first_some prose_caption (lines_below lines i 3)))"

text \<open>The indices of the lines that contain the file name, top to bottom.\<close>

definition mentions :: "string \<Rightarrow> string list \<Rightarrow> nat list" where
  "mentions f lines = filter (\<lambda>i. contains (lines ! i) f) [0 ..< length lines]"

text \<open>Rules 2 and 3 at the first line that contains the file name, and at no other.\<close>

definition first_mention_only :: "string \<Rightarrow> string list \<Rightarrow> string option" where
  "first_mention_only f lines =
     (case mentions f lines of
        [] \<Rightarrow> None
      | i # later \<Rightarrow> caption_at lines i)"

section \<open>The persisted document, read back\<close>

text \<open>The keys of a JSON object, in the order written.\<close>

definition object_keys :: "json \<Rightarrow> string list" where
  "object_keys j = (case j of JObject kvs \<Rightarrow> map fst kvs | _ \<Rightarrow> [])"

text \<open>
  Modelled from the spec: loading the persisted document. The repository writes the
  document and has no reader; the spec's round trip loads it back, field by field under
  the names of the persisted format. A string field:
\<close>

definition str_field :: "(string \<times> json) list \<Rightarrow> string \<Rightarrow> string option" where
  "str_field kvs k = (case map_of kvs k of Some (JString s) \<Rightarrow> Some s | _ \<Rightarrow> None)"

text \<open>Modelled from the spec: the loader's reading of a number field.\<close>

definition num_field :: "(string \<times> json) list \<Rightarrow> string \<Rightarrow> real option" where
  "num_field kvs k = (case map_of kvs k of Some (JNumber x) \<Rightarrow> Some x | _ \<Rightarrow> None)"

text \<open>
  Modelled from the spec: the loader's reading of one element of \<open>images\<close>, an object
  with the fields \<open>id\<close>, \<open>filename\<close>, \<open>path\<close> and \<open>caption\<close>.
\<close>

definition image_of_json :: "json \<Rightarrow> image_info option" where
  "image_of_json j =
     (case j of
        JObject kvs \<Rightarrow>
          (case (str_field kvs ''id'', str_field kvs ''filename'',
                 str_field kvs ''path'', str_field kvs ''caption'') of
             (Some a, Some b, Some c, Some d) \<Rightarrow>
               Some \<lparr>image_id = a, filename = b, path = c, caption = d\<rparr>
           | _ \<Rightarrow> None)
      | _ \<Rightarrow> None)"

text \<open>Modelled from the spec: the loader's reading of the array \<open>images\<close>, in its order.\<close>

definition images_field :: "(string \<times> json) list \<Rightarrow> string \<Rightarrow> image_info list option" where
  "images_field kvs k =
     (case map_of kvs k of Some (JArray js) \<Rightarrow> those (map image_of_json js) | _ \<Rightarrow> None)"

text \<open>
  Modelled from the spec: the loader's reading of the whole document into a content
  record; \<open>None\<close> when a field is missing or has another type.
\<close>

definition load_content :: "json \<Rightarrow> content option" where
  "load_content j =
     (case j of
        JObject kvs \<Rightarrow>
          (case (str_field kvs ''full_text'', images_field kvs ''images'',
                 str_field kvs ''pdf_path'', str_field kvs ''extraction_time'',
                 num_field kvs ''conversion_time_seconds'', str_field kvs ''session_id'') of
             (Some a, Some b, Some c, Some d, Some x, Some f) \<Rightarrow>
               Some \<lparr>full_text = a, images = b, pdf_path = c, extraction_time = d,
                      conversion_time_seconds = x, session_id = f\<rparr>
           | _ \<Rightarrow> None)
      | _ \<Rightarrow> None)"

text \<open>Modelled from the spec: loading the document stored at a path.\<close>

definition load_file :: "filesystem \<Rightarrow> string \<Rightarrow> content option" where
  "load_file f p = (case f p of Some (File (Json j)) \<Rightarrow> load_content j | _ \<Rightarrow> None)"

section \<open>The record of one image\<close>

text \<open>The record the loop appends for the image at position \<open>i\<close>.\<close>

definition record_of :: "string \<Rightarrow> string \<Rightarrow> nat \<times> string \<times> image \<Rightarrow> image_info" where
  "record_of dir t x =
     (case x of (i, name, img) \<Rightarrow>
        \<lparr>image_id = ''fig'' @ str_nat (i + 1),
         filename = name,
         path = os_path_join dir [name],
         caption = fst (extract_image_caption t name)\<rparr>)"

section \<open>Sample runs\<close>

text \<open>
  A document with two images, the first with a markdown reference, the second named on
  a line of its own above a figure label; an empty file system; and an environment in
  which nothing fails.
\<close>

definition sample_text :: string where
  "sample_text =
     ''![Overview](a.jpeg)'' @ [newline] @ ''b.jpeg'' @ [newline] @ ''Figure 2: Result overview''"

definition sample_settings :: "string \<Rightarrow> string option" where
  "sample_settings = map_of (map (\<lambda>c. (c, ''s3://bucket/'' @ c)) checkpoints)"

definition sample_env :: env where
  "sample_env =
     \<lparr>now_strftime = ''20240101_120000'',
      now_isoformat = ''2024-01-01T12:00:05'',
      time_before = 0,
      time_after = 5,
      float_sub = (\<lambda>a b. a - b),
      create_converter = None,
      run_converter = (\<lambda>p. Inr (Rendered 0)),
      text_from_rendered =
        (\<lambda>r. Inr (sample_text, [(''a.jpeg'', Pixels ''A''), (''b.jpeg'', Pixels ''B'')])),
      os_error = (\<lambda>c p. None)\<rparr>"

definition sample_world :: world where
  "sample_world = \<lparr>fs = Map.empty, logged = [], settings = sample_settings\<rparr>"

text \<open>The same, but the second image cannot be written.\<close>

definition failing_env :: env where
  "failing_env =
     sample_env\<lparr>os_error :=
       (\<lambda>c p. if c = Save_image \<and> p = ''output/images/20240101_120000/b.jpeg''
              then Some (OSError ''disk full'') else None)\<rparr>"

text \<open>The extractor of the sample run, and the world when the run is over.\<close>

definition sample_extractor :: LightweightExtractor where
  "sample_extractor = fst (projr (init sample_env ''paper.pdf'' ''results'' sample_world))"

definition sample_done :: world where
  "sample_done =
     snd (projr (extract_lightweight_content sample_env ''paper.pdf'' ''results'' False sample_world))"

text \<open>The world after the constructor, and the record of the sample run.\<close>

definition sample_ready :: world where
  "sample_ready = snd (projr (init sample_env ''paper.pdf'' ''results'' sample_world))"

definition sample_content :: content where
  "sample_content = the (fst (extract_content sample_env sample_extractor sample_ready))"

text \<open>The world of the sample run when \<open>extract_content\<close> has returned.\<close>

definition sample_extracted :: world where
  "sample_extracted = snd (extract_content sample_env sample_extractor sample_ready)"

text \<open>An environment in which directories cannot be removed.\<close>

definition locked_env :: env where
  "locked_env =
     sample_env\<lparr>os_error := (\<lambda>c p. if c = Rmtree then Some (OSError ''busy'') else None)\<rparr>"

text \<open>
  Three texts: the file name on two lines, six lines apart, with a figure label under
  the second; the file name followed by a number and a line of prose; and the file name
  with nothing near it that could be a caption.
\<close>

definition two_mentions :: string where
  "two_mentions =
     ''img2.png'' @ [newline, newline, newline, newline, newline, newline] @
     ''img2.png'' @ [newline] @ ''Figure 3: Result overview''"

definition prose_after :: string where
  "prose_after =
     ''img2.png'' @ [newline] @ ''12345678901'' @ [newline] @ ''  A plain descriptive line  ''"

definition no_caption :: string where
  "no_caption = ''see img1.png'' @ [newline] @ ''## 12'' @ [newline] @ ''short''"

section \<open>Directories survive an extraction\<close>

lemma fold_upd_Dir_keeps:
  "f q = Some Dir \<Longrightarrow> fold (\<lambda>q f. f(q \<mapsto> Dir)) ps f q = Some Dir"
  by (induction ps arbitrary: f) auto

lemma fold_upd_Dir_sets:
  "q \<in> set ps \<Longrightarrow> fold (\<lambda>q f. f(q \<mapsto> Dir)) ps f q = Some Dir"
  by (induction ps arbitrary: f) (auto simp: fold_upd_Dir_keeps)

lemma makedirs_creates:
  assumes "makedirs e p f = Inr f'"
  shows "f' p = Some Dir"
  using assms by (auto simp: makedirs_def fold_upd_Dir_sets split: option.splits if_splits)

lemma write_file_keeps_Dir:
  assumes "write_file e call p d f = Inr f'" and "f q = Some Dir"
  shows "f' q = Some Dir"
  using assms by (auto simp: write_file_def split: option.splits if_splits)

lemma fs_log_to [simp]: "fs (log_to w rs) = fs w"
  by (simp add: log_to_def)

lemma image_loop_keeps_Dir:
  assumes "image_loop e dir t xs acc w = (r, w')" and "fs w q = Some Dir"
  shows "fs w' q = Some Dir"
  using assms
proof (induction e dir t xs acc w rule: image_loop.induct)
  case (1 e dir t acc w)
  then show ?case by simp
next
  case (2 e dir t i name img rest acc w)
  show ?case
  proof (cases "write_file e Save_image (os_path_join dir [name]) (Jpeg img) (fs w)")
    case (Inl err)
    with "2.prems" show ?thesis by simp
  next
    case (Inr fs')
    obtain cap warnings where c: "extract_image_caption t name = (cap, warnings)"
      by (cases "extract_image_caption t name")
    have d: "fs' q = Some Dir"
      using write_file_keeps_Dir [OF Inr "2.prems"(2)] .
    show ?thesis
      using "2.IH" [OF refl Inr c [symmetric]] "2.prems"(1) Inr c d
      by simp
  qed
qed

lemma extract_content_keeps_Dir:
  assumes "extract_content e self w = (r, w')" and "fs w q = Some Dir"
  shows "fs w' q = Some Dir"
  using assms
  by (auto simp: extract_content_def extraction_failed_def Let_def
      split: option.splits sum.splits prod.splits dest: image_loop_keeps_Dir)

lemma init_creates_img_dir:
  assumes "init e pdf od w = Inr (ex, w1)"
  shows "fs w1 (self_img_dir ex) = Some Dir"
  using assms
  by (auto simp: init_def Let_def makedirs_creates split: sum.splits)

section \<open>The convenience function when nothing was extracted\<close>

text \<open>
  C10. Whatever the document, the output directory and the flag \<open>cleanup_temp\<close>: when
  the extractor was constructed and \<open>extract_content\<close> returns \<open>None\<close>,
  \<open>extract_lightweight_content\<close> returns \<open>(None, None)\<close> and leaves the world as
  \<open>extract_content\<close> left it. So \<open>save_content\<close> and \<open>cleanup_temp_files\<close> did not
  run, also when the flag is set, and the image directory made by the constructor is
  still there.
\<close>

theorem no_content_no_save_no_cleanup:
  assumes "init e pdf od w = Inr (ex, w1)"
    and "extract_content e ex w1 = (None, w2)"
  shows "extract_lightweight_content e pdf od cleanup_temp w = Inr ((None, None), w2)
         \<and> fs w2 (self_img_dir ex) = Some Dir"
  using assms extract_content_keeps_Dir [OF assms(2) init_creates_img_dir [OF assms(1)]]
  by (simp add: extract_lightweight_content_def)

theorem no_content_no_save_no_cleanup_witness:
  "extract_lightweight_content failing_env ''paper.pdf'' ''results'' True sample_world =
     Inr ((None, None),
          snd (extract_content failing_env
                 (fst (projr (init failing_env ''paper.pdf'' ''results'' sample_world)))
                 (snd (projr (init failing_env ''paper.pdf'' ''results'' sample_world)))))
   \<and> fs (snd (projr (extract_lightweight_content failing_env ''paper.pdf'' ''results'' True
                       sample_world)))
        ''output/images/20240101_120000'' = Some Dir"
proof -
  let ?i = "init failing_env ''paper.pdf'' ''results'' sample_world"
  let ?ex = "fst (projr ?i)"
  let ?w1 = "snd (projr ?i)"
  have "\<not> isl ?i" by code_simp
  then have i: "?i = Inr (?ex, ?w1)" by (cases ?i) auto
  have "fst (extract_content failing_env ?ex ?w1) = None" by code_simp
  then have x: "extract_content failing_env ?ex ?w1 =
      (None, snd (extract_content failing_env ?ex ?w1))"
    by (cases "extract_content failing_env ?ex ?w1") auto
  have d: "self_img_dir ?ex = ''output/images/20240101_120000''" by code_simp
  show ?thesis
    using no_content_no_save_no_cleanup [OF i x, of True] d by simp
qed

section \<open>Where the images are stored\<close>

text \<open>
  C7. The claim places each image at \<open>{output_dir}/images/{session_id}/{filename}\<close>.
  The constructor builds the image directory from the literal \<open>"output"\<close>, not from
  \<open>output_dir\<close>: with the output directory \<open>results\<close> the images are stored under
  \<open>output/images/\<close>, while the record is saved under \<open>results/\<close>.
\<close>

theorem images_stored_under_literal_output:
  "(case extract_lightweight_content sample_env ''paper.pdf'' ''results'' False sample_world of
      Inr ((Some c, p), w) \<Rightarrow> (map path (images c), p)
    | _ \<Rightarrow> ([], None)) =
   ([''output/images/20240101_120000/a.jpeg'', ''output/images/20240101_120000/b.jpeg''],
    Some ''results/lightweight_content.json'')"
  by code_simp

section \<open>The caption of a direct reference\<close>

text \<open>
  C2. The claim gives the bracketed text of the image reference whose path holds the
  file name. The group \<open>(.*?)\<close> of the pattern also runs over \<open>](\<close> and \<open>)\<close>: when
  another image reference stands earlier on the same line, the match starts there and
  the caption returned runs from the first reference's caption into the second's.
\<close>

theorem caption_runs_over_earlier_reference:
  "fst (extract_image_caption ''![Other](foo.png) ![Caption X](dir/img1.png)'' ''img1.png'') =
     ''Other](foo.png) ![Caption X''"
  by code_simp

section \<open>Cleaning up\<close>

lemma rmtree_result:
  assumes "rmtree e d f = Inr f'"
  shows "f' = (\<lambda>p. if under d p then None else f p)"
  using assms by (auto simp: rmtree_def split: option.splits if_splits)

lemma rmtree_needs_dir:
  assumes "rmtree e d f = Inr f'"
  shows "f d = Some Dir"
  using assms by (auto simp: rmtree_def split: option.splits if_splits)

lemma under_self: "under d d"
  by (simp add: under_def)

text \<open>
  C9. \<open>cleanup_temp_files\<close> always ends with a world, never with an exception, and:
  \<^item> when nothing is at the image directory's path, it changes nothing, not even the
    log;
  \<^item> when the removal succeeds, the directory and everything under it are gone and
    every other path is as before; a second call then finds no directory and changes
    nothing;
  \<^item> when the removal raises, the exception is logged as a warning and goes no further.
\<close>

theorem cleanup_temp_files_safe:
  "(fs w (self_img_dir ex) = None \<longrightarrow> cleanup_temp_files e ex w = w)
   \<and> (\<forall>f'. rmtree e (self_img_dir ex) (fs w) = Inr f' \<longrightarrow>
          (\<forall>p. fs (cleanup_temp_files e ex w) p =
                 (if under (self_img_dir ex) p then None else fs w p))
          \<and> cleanup_temp_files e ex (cleanup_temp_files e ex w) = cleanup_temp_files e ex w)
   \<and> (\<forall>err. fs w (self_img_dir ex) \<noteq> None \<and> rmtree e (self_img_dir ex) (fs w) = Inl err \<longrightarrow>
          cleanup_temp_files e ex w =
            log_to w [(INFO, Cleaning_up (self_img_dir ex)), (WARNING, Cleanup_failed err)])"
proof (intro conjI allI impI)
  assume "fs w (self_img_dir ex) = None"
  then show "cleanup_temp_files e ex w = w"
    by (simp add: cleanup_temp_files_def)
next
  fix f' p
  assume r: "rmtree e (self_img_dir ex) (fs w) = Inr f'"
  show "fs (cleanup_temp_files e ex w) p = (if under (self_img_dir ex) p then None else fs w p)"
    using r rmtree_needs_dir [OF r] rmtree_result [OF r]
    by (simp add: cleanup_temp_files_def Let_def)
next
  fix f'
  assume r: "rmtree e (self_img_dir ex) (fs w) = Inr f'"
  have "fs (cleanup_temp_files e ex w) (self_img_dir ex) = None"
    using r rmtree_needs_dir [OF r] rmtree_result [OF r]
    by (simp add: cleanup_temp_files_def Let_def under_self)
  then show "cleanup_temp_files e ex (cleanup_temp_files e ex w) = cleanup_temp_files e ex w"
    by (simp add: cleanup_temp_files_def [of e ex "cleanup_temp_files e ex w"])
next
  fix err
  assume "fs w (self_img_dir ex) \<noteq> None \<and> rmtree e (self_img_dir ex) (fs w) = Inl err"
  then show "cleanup_temp_files e ex w =
      log_to w [(INFO, Cleaning_up (self_img_dir ex)), (WARNING, Cleanup_failed err)]"
    by (auto simp: cleanup_temp_files_def Let_def log_to_def)
qed

theorem cleanup_temp_files_safe_witness:
  "fs sample_done ''output/images/20240101_120000/a.jpeg'' = Some (File (Jpeg (Pixels ''A'')))
   \<and> fs (cleanup_temp_files sample_env sample_extractor sample_done)
        ''output/images/20240101_120000/a.jpeg'' = None
   \<and> fs (cleanup_temp_files sample_env sample_extractor sample_done)
        ''output/images/20240101_120000'' = None
   \<and> cleanup_temp_files sample_env sample_extractor
        (cleanup_temp_files sample_env sample_extractor sample_done) =
      cleanup_temp_files sample_env sample_extractor sample_done
   \<and> cleanup_temp_files locked_env sample_extractor sample_done =
      log_to sample_done
        [(INFO, Cleaning_up ''output/images/20240101_120000''),
         (WARNING, Cleanup_failed (OSError ''busy''))]"
proof -
  let ?d = "self_img_dir sample_extractor"
  note t = cleanup_temp_files_safe [of sample_done sample_extractor]
  have d: "?d = ''output/images/20240101_120000''" by code_simp
  have a: "fs sample_done ''output/images/20240101_120000/a.jpeg'' = Some (File (Jpeg (Pixels ''A'')))"
    by code_simp
  have "\<not> isl (rmtree sample_env ?d (fs sample_done))" by code_simp
  then obtain f' where r: "rmtree sample_env ?d (fs sample_done) = Inr f'"
    by (cases "rmtree sample_env ?d (fs sample_done)") auto
  have u1: "under ?d ''output/images/20240101_120000/a.jpeg''" by code_simp
  have u2: "under ?d ''output/images/20240101_120000''" by code_simp
  have e: "fs sample_done ?d \<noteq> None" by code_simp
  have l: "rmtree locked_env ?d (fs sample_done) = Inl (OSError ''busy'')"
    by (simp add: rmtree_def locked_env_def sample_env_def)
  from t [of sample_env] r u1 u2
  have p1: "fs (cleanup_temp_files sample_env sample_extractor sample_done)
        ''output/images/20240101_120000/a.jpeg'' = None"
    and p2: "fs (cleanup_temp_files sample_env sample_extractor sample_done)
        ''output/images/20240101_120000'' = None"
    and p3: "cleanup_temp_files sample_env sample_extractor
        (cleanup_temp_files sample_env sample_extractor sample_done) =
      cleanup_temp_files sample_env sample_extractor sample_done"
    by simp_all
  from t [of locked_env] e l
  have p4: "cleanup_temp_files locked_env sample_extractor sample_done =
      log_to sample_done [(INFO, Cleaning_up ?d), (WARNING, Cleanup_failed (OSError ''busy''))]"
    by blast
  show ?thesis using a p1 p2 p3 p4 d by simp
qed

section \<open>The images of an extraction\<close>

lemma write_file_isl:
  "isl (write_file e call p d f) = (os_error e call p \<noteq> None \<or> f p = Some Dir)"
  by (auto simp: write_file_def split: option.splits)

lemma write_file_Dir_iff:
  assumes "write_file e call p d f = Inr f'"
  shows "(f' q = Some Dir) = (f q = Some Dir)"
  using assms by (auto simp: write_file_def split: option.splits if_splits)

lemma write_file_is_file:
  assumes "write_file e call p d f = Inr f'"
  shows "is_file f' p" and "is_file f q \<Longrightarrow> is_file f' q"
  using assms by (auto simp: write_file_def is_file_def split: option.splits if_splits)

lemma image_loop_success:
  assumes "image_loop e dir t xs acc w = (Inr il, w')"
  shows "il = acc @ map (record_of dir t) xs"
  using assms
proof (induction e dir t xs acc w rule: image_loop.induct)
  case (1 e dir t acc w)
  then show ?case by simp
next
  case (2 e dir t i name img rest acc w)
  show ?case
  proof (cases "write_file e Save_image (os_path_join dir [name]) (Jpeg img) (fs w)")
    case (Inl err)
    with "2.prems" show ?thesis by simp
  next
    case (Inr fs')
    obtain cap warnings where c: "extract_image_caption t name = (cap, warnings)"
      by (cases "extract_image_caption t name")
    show ?thesis
      using "2.IH" [OF refl Inr c [symmetric]] "2.prems" Inr c
      by (simp add: record_of_def)
  qed
qed

lemma image_loop_files:
  assumes "image_loop e dir t xs acc w = (Inr il, w')"
    and "\<forall>i \<in> set acc. is_file (fs w) (path i)"
  shows "\<forall>i \<in> set il. is_file (fs w') (path i)"
  using assms
proof (induction e dir t xs acc w rule: image_loop.induct)
  case (1 e dir t acc w)
  then show ?case by simp
next
  case (2 e dir t i name img rest acc w)
  show ?case
  proof (cases "write_file e Save_image (os_path_join dir [name]) (Jpeg img) (fs w)")
    case (Inl err)
    with "2.prems" show ?thesis by simp
  next
    case (Inr fs')
    obtain cap warnings where c: "extract_image_caption t name = (cap, warnings)"
      by (cases "extract_image_caption t name")
    show ?thesis
      using "2.IH" [OF refl Inr c [symmetric]] "2.prems" Inr c write_file_is_file [OF Inr]
      by simp
  qed
qed

lemma image_loop_fails:
  assumes "(i, name, img) \<in> set xs"
    and "isl (write_file e Save_image (os_path_join dir [name]) (Jpeg img) (fs w))"
  shows "isl (fst (image_loop e dir t xs acc w))"
  using assms
proof (induction e dir t xs acc w rule: image_loop.induct)
  case (1 e dir t acc w)
  then show ?case by simp
next
  case (2 e dir t i' name' img' rest acc w)
  show ?case
  proof (cases "write_file e Save_image (os_path_join dir [name']) (Jpeg img') (fs w)")
    case (Inl err)
    then show ?thesis by simp
  next
    case (Inr fs')
    obtain cap warnings where c: "extract_image_caption t name' = (cap, warnings)"
      by (cases "extract_image_caption t name'")
    from Inr "2.prems" have in_rest: "(i, name, img) \<in> set rest" by auto
    have "isl (write_file e Save_image (os_path_join dir [name]) (Jpeg img) fs')"
      using "2.prems"(2) write_file_Dir_iff [OF Inr]
      by (simp add: write_file_isl)
    then show ?thesis
      using "2.IH" [OF refl Inr c [symmetric] in_rest] Inr c
      by simp
  qed
qed

lemma extract_content_images:
  assumes "extract_content e self w = (Some c, w')"
    and "run_converter e (self_pdf_path self) = Inr r"
    and "text_from_rendered e r = Inr (t, items)"
  shows "\<exists>w2. image_loop e (self_img_dir self) t (enumerate_items items) []
                 (log_to (log_to w [(INFO, Starting_extraction (self_pdf_path self))])
                    [(INFO, Conversion_completed (float_sub e (time_after e) (time_before e)))])
               = (Inr (images c), w2)
           \<and> fs w2 = fs w'"
  using assms
  by (auto simp: extract_content_def extraction_failed_def Let_def
      split: option.splits sum.splits prod.splits)

lemma map_enum_fst: "map (\<lambda>x. g (fst x)) (zip [0 ..< length xs] xs) = map g [0 ..< length xs]"
  by (rule nth_equalityI) auto

lemma map_enum_snd: "map (\<lambda>x. h (snd x)) (zip [0 ..< length xs] xs) = map h xs"
  by (rule nth_equalityI) auto

lemma str_nat_examples:
  "str_nat 0 = ''0''" "str_nat 7 = ''7''" "str_nat 10 = ''10''" "str_nat 123 = ''123''"
  by code_simp+

lemma extract_content_success:
  assumes x: "extract_content e self w = (Some c, w')"
  shows "\<exists>r t items.
           create_converter e = None
         \<and> run_converter e (self_pdf_path self) = Inr r
         \<and> text_from_rendered e r = Inr (t, items)
         \<and> full_text c = t
         \<and> images c = map (record_of (self_img_dir self) t) (enumerate_items items)
         \<and> (\<forall>i \<in> set (images c). is_file (fs w') (path i))"
proof -
  from x obtain r t items where
    c: "create_converter e = None"
    and r: "run_converter e (self_pdf_path self) = Inr r"
    and t: "text_from_rendered e r = Inr (t, items)"
    and f: "full_text c = t"
    by (auto simp: extract_content_def extraction_failed_def Let_def
        split: option.splits sum.splits prod.splits)
  from extract_content_images [OF x r t]
  obtain w1 w2 where
    l: "image_loop e (self_img_dir self) t (enumerate_items items) [] w1 = (Inr (images c), w2)"
    and w2: "fs w2 = fs w'"
    by blast
  from image_loop_success [OF l]
  have il: "images c = map (record_of (self_img_dir self) t) (enumerate_items items)"
    by simp
  from image_loop_files [OF l] w2
  have "\<forall>i \<in> set (images c). is_file (fs w') (path i)" by simp
  with c r t f il show ?thesis by blast
qed

lemma map_image_id_record_of:
  "map image_id (map (record_of dir t) (enumerate_items items)) =
     map (\<lambda>k. ''fig'' @ str_nat (k + 1)) [0 ..< length items]"
proof -
  have "image_id \<circ> record_of dir t = (\<lambda>x. ''fig'' @ str_nat (fst x + 1))"
    by (auto simp: record_of_def fun_eq_iff)
  then show ?thesis
    unfolding enumerate_items_def
    using map_enum_fst [of "\<lambda>k. ''fig'' @ str_nat (k + 1)" items] by simp
qed

lemma map_filename_record_of:
  "map filename (map (record_of dir t) (enumerate_items items)) = map fst items"
proof -
  have "filename \<circ> record_of dir t = (\<lambda>x. fst (snd x))"
    by (auto simp: record_of_def fun_eq_iff)
  then show ?thesis
    unfolding enumerate_items_def
    using map_enum_snd [of fst items] by simp
qed

text \<open>
  C6. When \<open>extract_content\<close> succeeds on a converter result with the images
  \<open>items\<close>, the record has one image per item, in the converter's order: the file names
  are those of the items, and the identifier at position \<open>k\<close> (from 0) is \<open>fig\<close>
  followed by the decimal digits of \<open>k + 1\<close>.
\<close>

theorem image_ids_follow_converter_order:
  assumes "extract_content e self w = (Some c, w')"
    and "run_converter e (self_pdf_path self) = Inr r"
    and "text_from_rendered e r = Inr (t, items)"
  shows "length (images c) = length items
         \<and> map image_id (images c) = map (\<lambda>k. ''fig'' @ str_nat (k + 1)) [0 ..< length items]
         \<and> map filename (images c) = map fst items"
proof -
  from extract_content_success [OF assms(1)] assms(2,3)
  have il: "images c = map (record_of (self_img_dir self) t) (enumerate_items items)"
    by auto
  have a: "map image_id (images c) = map (\<lambda>k. ''fig'' @ str_nat (k + 1)) [0 ..< length items]"
    unfolding il by (rule map_image_id_record_of)
  have b: "map filename (images c) = map fst items"
    unfolding il by (rule map_filename_record_of)
  have l: "length (images c) = length items"
    using b by (metis length_map)
  show ?thesis using a b l by blast
qed

theorem image_ids_follow_converter_order_witness:
  "map image_id (images sample_content) = [''fig1'', ''fig2'']
   \<and> map filename (images sample_content) = [''a.jpeg'', ''b.jpeg'']
   \<and> length (images sample_content) = 2"
proof -
  let ?x = "extract_content sample_env sample_extractor sample_ready"
  have "fst ?x \<noteq> None" by code_simp
  then have x: "?x = (Some sample_content, snd ?x)"
    by (cases ?x) (auto simp: sample_content_def)
  have r: "run_converter sample_env (self_pdf_path sample_extractor) = Inr (Rendered 0)"
    by (simp add: sample_env_def)
  have t: "text_from_rendered sample_env (Rendered 0) =
      Inr (sample_text, [(''a.jpeg'', Pixels ''A''), (''b.jpeg'', Pixels ''B'')])"
    by (simp add: sample_env_def)
  have n: "map (\<lambda>k. ''fig'' @ str_nat (k + 1))
      [0 ..< length [(''a.jpeg'', Pixels ''A''), (''b.jpeg'', Pixels ''B'')]] = [''fig1'', ''fig2'']"
    by code_simp
  show ?thesis
    using image_ids_follow_converter_order [OF x r t] n by simp
qed

text \<open>
  C1. \<open>extract_content\<close> returns \<open>None\<close> whenever the converter cannot be built, the
  conversion raises, the rendered document cannot be read, or some image cannot be
  written (whether an image can be written does not change while the loop runs, so the
  test is stated on the file system the method starts from). When it returns a record,
  every step succeeded, the record has the converter's text and one image per item, and
  every image's path holds a file: no record is returned with an image missing.
\<close>

theorem extract_content_all_or_nothing:
  assumes "extract_content e self w = (result, w')"
  shows "(create_converter e \<noteq> None \<longrightarrow> result = None)
     \<and> (isl (run_converter e (self_pdf_path self)) \<longrightarrow> result = None)
     \<and> (\<forall>r. run_converter e (self_pdf_path self) = Inr r \<and> isl (text_from_rendered e r)
            \<longrightarrow> result = None)
     \<and> (\<forall>r t items name img.
            run_converter e (self_pdf_path self) = Inr r
          \<and> text_from_rendered e r = Inr (t, items)
          \<and> (name, img) \<in> set items
          \<and> isl (write_file e Save_image (os_path_join (self_img_dir self) [name]) (Jpeg img) (fs w))
            \<longrightarrow> result = None)
     \<and> (\<forall>c. result = Some c \<longrightarrow>
            (\<exists>r t items.
                create_converter e = None
              \<and> run_converter e (self_pdf_path self) = Inr r
              \<and> text_from_rendered e r = Inr (t, items)
              \<and> full_text c = t
              \<and> map filename (images c) = map fst items)
          \<and> (\<forall>i \<in> set (images c). is_file (fs w') (path i)))"
proof (intro conjI allI impI)
  assume "create_converter e \<noteq> None"
  with assms show "result = None"
    by (auto simp: extract_content_def extraction_failed_def Let_def)
next
  assume "isl (run_converter e (self_pdf_path self))"
  with assms show "result = None"
    by (auto simp: extract_content_def extraction_failed_def Let_def isl_def
        split: option.splits)
next
  fix r
  assume "run_converter e (self_pdf_path self) = Inr r \<and> isl (text_from_rendered e r)"
  with assms show "result = None"
    by (auto simp: extract_content_def extraction_failed_def Let_def isl_def
        split: option.splits)
next
  fix r t items name img
  assume a: "run_converter e (self_pdf_path self) = Inr r
          \<and> text_from_rendered e r = Inr (t, items)
          \<and> (name, img) \<in> set items
          \<and> isl (write_file e Save_image (os_path_join (self_img_dir self) [name]) (Jpeg img) (fs w))"
  then obtain k where k: "k < length items" "items ! k = (name, img)"
    by (auto simp: in_set_conv_nth)
  then have m: "(k, name, img) \<in> set (enumerate_items items)"
    unfolding enumerate_items_def set_zip by force
  let ?w1 = "log_to (log_to w [(INFO, Starting_extraction (self_pdf_path self))])
      [(INFO, Conversion_completed (float_sub e (time_after e) (time_before e)))]"
  from image_loop_fails [OF m, of e "self_img_dir self" ?w1 t "[]"] a
  have "isl (fst (image_loop e (self_img_dir self) t (enumerate_items items) [] ?w1))"
    by simp
  then obtain err w2 where
    "image_loop e (self_img_dir self) t (enumerate_items items) [] ?w1 = (Inl err, w2)"
    by (cases "image_loop e (self_img_dir self) t (enumerate_items items) [] ?w1")
       (auto simp: isl_def)
  with assms a show "result = None"
    by (auto simp: extract_content_def extraction_failed_def Let_def split: option.splits)
next
  fix c
  assume "result = Some c"
  with assms have x: "extract_content e self w = (Some c, w')" by simp
  from extract_content_success [OF x]
  show "\<exists>r t items.
                create_converter e = None
              \<and> run_converter e (self_pdf_path self) = Inr r
              \<and> text_from_rendered e r = Inr (t, items)
              \<and> full_text c = t
              \<and> map filename (images c) = map fst items"
    using map_filename_record_of by metis
next
  fix c
  assume "result = Some c"
  with assms have x: "extract_content e self w = (Some c, w')" by simp
  from extract_content_success [OF x]
  show "\<forall>i \<in> set (images c). is_file (fs w') (path i)" by blast
qed

theorem extract_content_all_or_nothing_witness:
  "fst (extract_content failing_env sample_extractor sample_ready) = None
   \<and> is_file (fs (snd (extract_content failing_env sample_extractor sample_ready)))
        ''output/images/20240101_120000/a.jpeg''
   \<and> fst (extract_content sample_env sample_extractor sample_ready) = Some sample_content
   \<and> is_file (fs (snd (extract_content sample_env sample_extractor sample_ready)))
        ''output/images/20240101_120000/a.jpeg''
   \<and> is_file (fs (snd (extract_content sample_env sample_extractor sample_ready)))
        ''output/images/20240101_120000/b.jpeg''"
proof -
  let ?bad = "extract_content failing_env sample_extractor sample_ready"
  let ?good = "extract_content sample_env sample_extractor sample_ready"
  have r: "run_converter failing_env (self_pdf_path sample_extractor) = Inr (Rendered 0)"
    by (simp add: sample_env_def failing_env_def)
  have t: "text_from_rendered failing_env (Rendered 0) =
      Inr (sample_text, [(''a.jpeg'', Pixels ''A''), (''b.jpeg'', Pixels ''B'')])"
    by (simp add: sample_env_def failing_env_def)
  have f: "isl (write_file failing_env Save_image
      (os_path_join (self_img_dir sample_extractor) [''b.jpeg'']) (Jpeg (Pixels ''B''))
      (fs sample_ready))"
    by code_simp
  have b: "?bad = (fst ?bad, snd ?bad)" by simp
  from extract_content_all_or_nothing [OF b] r t f
  have p1: "fst ?bad = None" by fastforce
  have p2: "is_file (fs (snd ?bad)) ''output/images/20240101_120000/a.jpeg''" by code_simp
  have "fst ?good \<noteq> None" by code_simp
  then have g: "?good = (Some sample_content, snd ?good)"
    by (cases ?good) (auto simp: sample_content_def)
  from extract_content_all_or_nothing [OF g]
  have all: "\<forall>i \<in> set (images sample_content). is_file (fs (snd ?good)) (path i)" by blast
  have "map path (images sample_content) =
      [''output/images/20240101_120000/a.jpeg'', ''output/images/20240101_120000/b.jpeg'']"
    by code_simp
  then obtain i1 i2 where "images sample_content = [i1, i2]"
    and "path i1 = ''output/images/20240101_120000/a.jpeg''"
    and "path i2 = ''output/images/20240101_120000/b.jpeg''"
    by (auto simp: map_eq_Cons_conv)
  with all have p4: "is_file (fs (snd ?good)) ''output/images/20240101_120000/a.jpeg''"
    and p5: "is_file (fs (snd ?good)) ''output/images/20240101_120000/b.jpeg''"
    by auto
  from g have p3: "fst ?good = Some sample_content" by (metis fst_conv)
  from p1 p2 p3 p4 p5 show ?thesis by (intro conjI)
qed

section \<open>Saving the record and loading it back\<close>

lemma image_of_json_of_image: "image_of_json (json_of_image i) = Some i"
  by (simp add: image_of_json_def json_of_image_def str_field_def)

lemma those_images: "those (map (image_of_json \<circ> json_of_image) xs) = Some xs"
  by (induction xs) (simp_all add: image_of_json_of_image)

lemma load_content_json_of_content: "load_content (json_of_content c) = Some c"
  by (simp add: load_content_def json_of_content_def str_field_def num_field_def
      images_field_def those_images)

lemma write_file_result:
  assumes "write_file e call p d f = Inr f'"
  shows "f' p = Some (File d)"
  using assms by (auto simp: write_file_def split: option.splits if_splits)

text \<open>
  C8. When \<open>save_content\<close> succeeds, the file it names holds the document of the
  record, and loading that file gives the record back: every field with its value, the
  images in their order. The document's keys are \<open>full_text\<close>, \<open>images\<close>,
  \<open>pdf_path\<close>, \<open>extraction_time\<close>, \<open>conversion_time_seconds\<close> and \<open>session_id\<close>,
  and each image's are \<open>id\<close>, \<open>filename\<close>, \<open>path\<close> and \<open>caption\<close>. With no
  destination given the file is \<open>lightweight_content.json\<close> joined to the output
  directory. (The document is compared as a tree: how \<open>json\<close> writes and reads text
  is the library's part.)
\<close>

theorem save_then_load:
  assumes "save_content e self c output_file w = Inr (out, w')"
  shows "load_file (fs w') out = Some c
     \<and> fs w' out = Some (File (Json (json_of_content c)))
     \<and> object_keys (json_of_content c) =
         [''full_text'', ''images'', ''pdf_path'', ''extraction_time'',
          ''conversion_time_seconds'', ''session_id'']
     \<and> (\<forall>i \<in> set (images c).
           object_keys (json_of_image i) = [''id'', ''filename'', ''path'', ''caption''])
     \<and> (output_file = None \<longrightarrow>
           out = path_join (self_output_dir self) ''lightweight_content.json'')
     \<and> (\<forall>p. output_file = Some p \<longrightarrow> out = p)"
proof -
  from assms have f: "fs w' out = Some (File (Json (json_of_content c)))"
    by (auto simp: save_content_def Let_def split: sum.splits dest: write_file_result)
  then have l: "load_file (fs w') out = Some c"
    by (simp add: load_file_def load_content_json_of_content)
  have k: "object_keys (json_of_content c) =
         [''full_text'', ''images'', ''pdf_path'', ''extraction_time'',
          ''conversion_time_seconds'', ''session_id'']"
    by (simp add: object_keys_def json_of_content_def)
  have ki: "\<forall>i \<in> set (images c).
           object_keys (json_of_image i) = [''id'', ''filename'', ''path'', ''caption'']"
    by (simp add: object_keys_def json_of_image_def)
  from assms have d: "output_file = None \<longrightarrow>
           out = path_join (self_output_dir self) ''lightweight_content.json''"
    by (auto simp: save_content_def Let_def os_path_join_def split: sum.splits)
  from assms have g: "\<forall>p. output_file = Some p \<longrightarrow> out = p"
    by (auto simp: save_content_def Let_def split: sum.splits)
  from l f k ki d g show ?thesis by (intro conjI)
qed

theorem save_then_load_witness:
  "fst (projr (save_content sample_env sample_extractor sample_content None sample_extracted)) =
     ''results/lightweight_content.json''
   \<and> load_file
        (fs (snd (projr (save_content sample_env sample_extractor sample_content None
                           sample_extracted))))
        ''results/lightweight_content.json'' = Some sample_content
   \<and> map image_id (images sample_content) = [''fig1'', ''fig2'']"
proof -
  let ?s = "save_content sample_env sample_extractor sample_content None sample_extracted"
  have "\<not> isl ?s" by code_simp
  then have s: "?s = Inr (fst (projr ?s), snd (projr ?s))" by (cases ?s) auto
  have o: "fst (projr ?s) = ''results/lightweight_content.json''" by code_simp
  have i: "map image_id (images sample_content) = [''fig1'', ''fig2'']" by code_simp
  from save_then_load [OF s]
  have l: "load_file (fs (snd (projr ?s))) (fst (projr ?s)) = Some sample_content"
    by (rule conjunct1)
  from o l [unfolded o] i show ?thesis by (intro conjI)
qed

section \<open>The caption heuristic, characterised\<close>

lemma map_nth_upt: "b \<le> length xs \<Longrightarrow> map ((!) xs) [a ..< b] = take (b - a) (drop a xs)"
  by (rule nth_equalityI) auto

lemma scan_figure_window:
  assumes "\<forall>j \<in> set js. j < length lines"
  shows "scan_figure lines js = Inr (first_some label_caption (map ((!) lines) js))"
  using assms
  by (induction js) (auto simp: getitem_def label_caption_def split: option.splits)

lemma strip_no_space_ends:
  "strip s \<noteq> [] \<Longrightarrow> \<not> isspace (last (strip s))"
proof -
  assume a: "strip s \<noteq> []"
  let ?r = "dropWhile isspace (rev (dropWhile isspace s))"
  from a have "?r \<noteq> []" by (simp add: strip_def)
  then have "\<not> isspace (hd ?r)" by (rule hd_dropWhile)
  moreover have "last (strip s) = hd ?r"
    using \<open>?r \<noteq> []\<close> by (simp add: strip_def last_rev)
  ultimately show ?thesis by simp
qed

lemma isspace_newline: "isspace newline"
  by (simp add: isspace_def newline_def)

lemma match_all_stripped:
  assumes "\<not> p newline"
  shows "match_all p (strip s) = (strip s \<noteq> [] \<and> list_all p (strip s))"
proof (cases "strip s = []")
  case True
  then show ?thesis by (simp add: match_all_def)
next
  case False
  let ?t = "strip s"
  have nl: "last ?t \<noteq> newline"
    using strip_no_space_ends [OF False] isspace_newline by auto
  show ?thesis
  proof (cases "list_all p ?t")
    case True
    from False obtain x xs where t: "?t = x # xs" by (cases ?t) auto
    with True have "takeWhile p ?t \<noteq> []" by simp
    moreover from True have "dropWhile p ?t = []" by (simp add: list_all_iff)
    ultimately show ?thesis using False True by (simp add: match_all_def at_end_def)
  next
    case no: False
    then have d: "dropWhile p ?t \<noteq> []" by (simp add: list_all_iff)
    have "dropWhile p ?t \<noteq> [newline]"
    proof
      assume e: "dropWhile p ?t = [newline]"
      have "?t = takeWhile p ?t @ dropWhile p ?t" by simp
      with e have "last ?t = newline"
        by (metis last_snoc)
      with nl show False by simp
    qed
    with d no show ?thesis by (simp add: match_all_def at_end_def)
  qed
qed

lemma prose_ok_stripped: "prose_ok (strip l) = descriptive (strip l)"
proof -
  have a: "\<not> isdecimal newline" by (simp add: isdecimal_def newline_def)
  have b: "\<not> ispunct newline" by (simp add: ispunct_def newline_def)
  have c: "startswith (strip l) ''!'' = (strip l \<noteq> [] \<and> hd (strip l) = CHR ''!'')"
    by (cases "strip l") auto
  show ?thesis
    unfolding prose_ok_def descriptive_def match_all_stripped [of isdecimal l, OF a]
      match_all_stripped [of ispunct l, OF b] c
    by auto
qed

lemma scan_prose_window:
  assumes "\<forall>j \<in> set js. j < length lines"
  shows "scan_prose lines js = Inr (first_some prose_caption (map ((!) lines) js))"
  using assms
  by (induction js) (auto simp: getitem_def prose_caption_def prose_ok_stripped)

lemma at_line_caption_at:
  assumes "i < length lines"
  shows "at_line lines i = Inr (caption_at lines i)"
proof -
  have d5: "map ((!) lines) [i + 1 ..< min (length lines) (i + 6)] = lines_below lines i 5"
    using assms by (simp add: map_nth_upt lines_below_def min_def)
  have d3: "map ((!) lines) [i + 1 ..< min (length lines) (i + 4)] = lines_below lines i 3"
    using assms by (simp add: map_nth_upt lines_below_def min_def)
  have u3: "map ((!) lines) [i - 3 ..< i] = lines_above lines i 3"
    using assms by (simp add: map_nth_upt lines_above_def drop_take)
  have s5: "scan_figure lines [i + 1 ..< min (length lines) (i + 6)] =
      Inr (first_some label_caption (lines_below lines i 5))"
    using scan_figure_window [of "[i + 1 ..< min (length lines) (i + 6)]" lines] d5 by simp
  have s3: "scan_figure lines [i - 3 ..< i] = Inr (first_some label_caption (lines_above lines i 3))"
    using scan_figure_window [of "[i - 3 ..< i]" lines] u3 assms by simp
  have p3: "scan_prose lines [i + 1 ..< min (length lines) (i + 4)] =
      Inr (first_some prose_caption (lines_below lines i 3))"
    using scan_prose_window [of "[i + 1 ..< min (length lines) (i + 4)]" lines] d3 by simp
  show ?thesis
    unfolding at_line_def caption_at_def s5 s3 p3
    by (simp split: option.splits)
qed

lemma scan_lines_enum:
  assumes "\<forall>(i, l) \<in> set ps. i < length lines"
  shows "scan_lines f lines ps =
     Inr (first_some (caption_at lines) (map fst (filter (\<lambda>(i, l). contains l f) ps)))"
  using assms
  by (induction ps) (auto simp: at_line_caption_at split: option.splits)

lemma mentions_enum:
  "map fst (filter (\<lambda>(i, l). contains l f) (enumerate_lines lines)) = mentions f lines"
proof -
  have "enumerate_lines lines = map (\<lambda>i. (i, lines ! i)) [0 ..< length lines]"
    unfolding enumerate_lines_def by (rule nth_equalityI) auto
  then show ?thesis
    by (simp add: mentions_def filter_map comp_def)
qed

lemma scan_lines_all:
  "scan_lines f lines (enumerate_lines lines) =
     Inr (first_some (caption_at lines) (mentions f lines))"
proof -
  have "\<forall>(i, l) \<in> set (enumerate_lines lines). i < length lines"
    by (auto simp: enumerate_lines_def dest: set_zip_leftD)
  from scan_lines_enum [OF this] show ?thesis by (simp add: mentions_enum)
qed

lemma caption_body_result:
  "caption_body t f =
     Inr (case direct_reference t f of
            Some c \<Rightarrow> c
          | None \<Rightarrow>
              (case first_some (caption_at (split_lines t)) (mentions f (split_lines t)) of
                 Some c \<Rightarrow> c
               | None \<Rightarrow> []))"
  by (simp add: caption_body_def Let_def scan_lines_all split: option.splits)

lemma first_some_None: "(\<forall>x \<in> set xs. g x = None) \<Longrightarrow> first_some g xs = None"
  by (induction xs) auto

lemma first_some_prose: "first_some prose_caption xs = List.find descriptive (map strip xs)"
  by (induction xs) (auto simp: prose_caption_def)

lemma extract_image_caption_result:
  "extract_image_caption t f =
     (case direct_reference t f of
        Some c \<Rightarrow> c
      | None \<Rightarrow>
          (case first_some (caption_at (split_lines t)) (mentions f (split_lines t)) of
             Some c \<Rightarrow> c
           | None \<Rightarrow> []),
      [])"
  by (simp add: extract_image_caption_def or_empty_def caption_body_result)

text \<open>
  C3, as amended. When the first rule gives no caption, the result is that of rules 2
  and 3 applied at each line that contains the file name, top to bottom, until one gives
  a caption: at such a line, the figure label's trimmed text from the lines at offsets
  \<open>+1..+5\<close>, else from the lines at offsets \<open>-3..-1\<close>, else the fallback line; a
  later line that contains the file name is consulted when the earlier ones gave
  nothing. The result is empty when no line gives a caption.
\<close>

theorem figure_label_at_each_mention:
  assumes "direct_reference t f = None"
  shows "fst (extract_image_caption t f) =
     (case first_some (caption_at (split_lines t)) (mentions f (split_lines t)) of
        Some c \<Rightarrow> c
      | None \<Rightarrow> [])"
  using assms by (simp add: extract_image_caption_result)

theorem figure_label_at_each_mention_witness:
  "direct_reference two_mentions ''img2.png'' = None
   \<and> mentions ''img2.png'' (split_lines two_mentions) = [0, 6]
   \<and> caption_at (split_lines two_mentions) 0 = None
   \<and> caption_at (split_lines two_mentions) 6 = Some ''Result overview''
   \<and> fst (extract_image_caption two_mentions ''img2.png'') = ''Result overview''"
proof -
  have d: "direct_reference two_mentions ''img2.png'' = None" by code_simp
  have m: "mentions ''img2.png'' (split_lines two_mentions) = [0, 6]" by code_simp
  have c0: "caption_at (split_lines two_mentions) 0 = None" by code_simp
  have c6: "caption_at (split_lines two_mentions) 6 = Some ''Result overview''" by code_simp
  from figure_label_at_each_mention [OF d] m c0 c6
  have "fst (extract_image_caption two_mentions ''img2.png'') = ''Result overview''" by simp
  with d m c0 c6 show ?thesis by (intro conjI)
qed

text \<open>
  C3 as stated fails: in \<open>two_mentions\<close> the first line that contains the file name has
  no caption within its windows, so rules 2 and 3 at that line alone give nothing, yet
  the method returns the label under the second line that contains it.
\<close>

theorem later_mention_is_consulted:
  "direct_reference two_mentions ''img2.png'' = None
   \<and> (case first_mention_only ''img2.png'' (split_lines two_mentions) of
         Some c \<Rightarrow> c
       | None \<Rightarrow> []) = []
   \<and> fst (extract_image_caption two_mentions ''img2.png'') = ''Result overview''"
  by code_simp

text \<open>
  C4. When the first rule gives no caption and, at the first line that contains the file
  name, neither window has a figure label with text, the method returns the first of
  the lines at offsets \<open>+1..+3\<close> that, trimmed, is descriptive, when there is one.
\<close>

theorem fallback_prose_line:
  assumes "direct_reference t f = None"
    and "mentions f (split_lines t) = i # later"
    and "first_some label_caption (lines_below (split_lines t) i 5) = None"
    and "first_some label_caption (lines_above (split_lines t) i 3) = None"
    and "List.find descriptive (map strip (lines_below (split_lines t) i 3)) = Some c"
  shows "fst (extract_image_caption t f) = c"
  using assms
  by (simp add: extract_image_caption_result caption_at_def first_some_prose)

theorem fallback_prose_line_witness:
  "mentions ''img2.png'' (split_lines prose_after) = [0]
   \<and> map strip (lines_below (split_lines prose_after) 0 3) =
       [''12345678901'', ''A plain descriptive line'']
   \<and> \<not> descriptive ''12345678901''
   \<and> descriptive ''A plain descriptive line''
   \<and> fst (extract_image_caption prose_after ''img2.png'') = ''A plain descriptive line''"
proof -
  let ?l = "split_lines prose_after"
  have d: "direct_reference prose_after ''img2.png'' = None" by code_simp
  have m: "mentions ''img2.png'' ?l = [0]" by code_simp
  have b: "first_some label_caption (lines_below ?l 0 5) = None" by code_simp
  have a: "first_some label_caption (lines_above ?l 0 3) = None" by code_simp
  have w: "map strip (lines_below ?l 0 3) = [''12345678901'', ''A plain descriptive line'']"
    by code_simp
  have n: "\<not> descriptive ''12345678901''" by code_simp
  have y: "descriptive ''A plain descriptive line''" by code_simp
  have p: "List.find descriptive (map strip (lines_below ?l 0 3)) =
      Some ''A plain descriptive line''"
    unfolding w using n y by simp
  from fallback_prose_line [OF d m b a p] m w n y show ?thesis by (intro conjI)
qed

text \<open>
  C5. The body of the \<open>try\<close> never raises (every index it reads is in range), so
  the method returns the body's caption and logs nothing; the \<open>except\<close> branch would
  turn any exception into the empty string and a warning; and when no rule gives a
  caption, at any line that contains the file name, the result is the empty string.
\<close>

theorem extract_image_caption_never_raises:
  "(\<exists>c. caption_body t f = Inr c \<and> extract_image_caption t f = (c, []))
   \<and> (\<forall>e. or_empty (Inl e) = ([], [(WARNING, Caption_failed e)]))
   \<and> (direct_reference t f = None
       \<and> (\<forall>i \<in> set (mentions f (split_lines t)).
             first_some label_caption (lines_below (split_lines t) i 5) = None
           \<and> first_some label_caption (lines_above (split_lines t) i 3) = None
           \<and> first_some prose_caption (lines_below (split_lines t) i 3) = None)
       \<longrightarrow> extract_image_caption t f = ([], []))"
proof (intro conjI allI impI)
  show "\<exists>c. caption_body t f = Inr c \<and> extract_image_caption t f = (c, [])"
    by (simp add: extract_image_caption_def or_empty_def caption_body_result)
next
  fix e
  show "or_empty (Inl e) = ([], [(WARNING, Caption_failed e)])"
    by (simp add: or_empty_def)
next
  assume a: "direct_reference t f = None
       \<and> (\<forall>i \<in> set (mentions f (split_lines t)).
             first_some label_caption (lines_below (split_lines t) i 5) = None
           \<and> first_some label_caption (lines_above (split_lines t) i 3) = None
           \<and> first_some prose_caption (lines_below (split_lines t) i 3) = None)"
  then have "\<forall>i \<in> set (mentions f (split_lines t)). caption_at (split_lines t) i = None"
    by (simp add: caption_at_def)
  then have "first_some (caption_at (split_lines t)) (mentions f (split_lines t)) = None"
    by (rule first_some_None)
  with a show "extract_image_caption t f = ([], [])"
    by (simp add: extract_image_caption_result)
qed

theorem extract_image_caption_never_raises_witness:
  "mentions ''img1.png'' (split_lines no_caption) = [0]
   \<and> extract_image_caption no_caption ''img1.png'' = ([], [])
   \<and> caption_body no_caption ''img1.png'' = Inr []"
proof -
  let ?l = "split_lines no_caption"
  have d: "direct_reference no_caption ''img1.png'' = None" by code_simp
  have m: "mentions ''img1.png'' ?l = [0]" by code_simp
  have b: "first_some label_caption (lines_below ?l 0 5) = None" by code_simp
  have a: "first_some label_caption (lines_above ?l 0 3) = None" by code_simp
  have p: "first_some prose_caption (lines_below ?l 0 3) = None" by code_simp
  from extract_image_caption_never_raises [of no_caption "''img1.png''"] d m b a p
  have r: "extract_image_caption no_caption ''img1.png'' = ([], [])" by simp
  from extract_image_caption_never_raises [of no_caption "''img1.png''"]
  obtain c where c: "caption_body no_caption ''img1.png'' = Inr c"
    and "extract_image_caption no_caption ''img1.png'' = (c, [])" by blast
  with r have "c = []" by simp
  with c m r show ?thesis by simp
qed

end
